theory Spec2Isabelle
  imports Main
begin

section \<open>Wellness chat coach: the rule-based reply generator of \<^verbatim>\<open>main.py\<close>\<close>

text \<open>
  The repository is one FastAPI module. Its only logic is \<^verbatim>\<open>generate_reply\<close>: the
  message is lower-cased and stripped, six keyword lists are tried in order with
  \<^verbatim>\<open>any(k in q for k in [...])\<close>, and the first list with a hit selects a fixed
  text; a seventh text is the default. \<^verbatim>\<open>POST /api/chat\<close> passes the message
  of the request to that function and wraps the result.
\<close>

subsection \<open>Python strings\<close>

text \<open>
  A Python \<^verbatim>\<open>str\<close> is a sequence of Unicode code points, so the model is a list of
  code point numbers. \<open>ascii\<close> embeds a literal written with ASCII characters; the
  few other code points of the source's literals are named below.
\<close>

type_synonym pystr = "nat list"

definition ascii :: "string \<Rightarrow> pystr" where
  "ascii s = map of_char s"

abbreviation nl :: pystr where
  "nl \<equiv> [0x0A]"

abbreviation bullet :: pystr where
  "bullet \<equiv> [0x2022]"

abbreviation en_dash :: pystr where
  "en_dash \<equiv> [0x2013]"

abbreviation em_dash :: pystr where
  "em_dash \<equiv> [0x2014]"

text \<open>
  \<^verbatim>\<open>str.strip()\<close> without argument removes the code points for which
  \<^verbatim>\<open>str.isspace()\<close> holds. CPython decides that with a fixed table: the ASCII
  controls 0x09 to 0x0D and 0x1C to 0x1F, the space, and the Unicode white space
  listed here.
\<close>

definition isspace :: "nat \<Rightarrow> bool" where
  "isspace c \<longleftrightarrow>
     (0x09 \<le> c \<and> c \<le> 0x0D) \<or> (0x1C \<le> c \<and> c \<le> 0x20) \<or> c = 0x85 \<or> c = 0xA0 \<or>
     c = 0x1680 \<or> (0x2000 \<le> c \<and> c \<le> 0x200A) \<or> c = 0x2028 \<or> c = 0x2029 \<or>
     c = 0x202F \<or> c = 0x205F \<or> c = 0x3000"

text \<open>
  \<^verbatim>\<open>s.strip()\<close>: CPython moves an index from the left past white space, then
  an index from the right, never below the left one, and returns the slice between.
\<close>

definition strip :: "pystr \<Rightarrow> pystr" where
  "strip s = rev (dropWhile isspace (rev (dropWhile isspace s)))"

text \<open>
  \<^verbatim>\<open>str.lower()\<close> maps every code point through the lower-case table of the
  Unicode database and concatenates the results (one to three code points each).
  The table belongs to the Python runtime, not to this repository. The model writes
  out the part of it that can produce an ASCII code point: the letters \<open>A\<close> to
  \<open>Z\<close>, U+0130 (capital I with dot above, which becomes \<open>i\<close> followed by
  U+0307) and U+212A (the Kelvin sign, which becomes \<open>k\<close>). Every other code
  point is kept as it is; where Python would change it (an accented capital, a
  capital sigma), Python's result consists of code points outside ASCII that are
  white space no more than the original, and every keyword of the program is ASCII
  and neither starts nor ends with white space, so no \<^verbatim>\<open>k in q\<close> test can tell
  the difference.
\<close>

definition lower_cp :: "nat \<Rightarrow> pystr" where
  "lower_cp c =
     (if 0x41 \<le> c \<and> c \<le> 0x5A then [c + 0x20]
      else if c = 0x130 then [0x69, 0x307]
      else if c = 0x212A then [0x6B]
      else [c])"

definition lower :: "pystr \<Rightarrow> pystr" where
  "lower s = concat (map lower_cp s)"

text \<open>
  \<^verbatim>\<open>k in q\<close> on strings is the substring test; the empty string is in every
  string.
\<close>

fun starts_with :: "pystr \<Rightarrow> pystr \<Rightarrow> bool" where
  "starts_with q [] = True"
| "starts_with [] (k # ks) = False"
| "starts_with (c # cs) (k # ks) = (c = k \<and> starts_with cs ks)"

fun str_in :: "pystr \<Rightarrow> pystr \<Rightarrow> bool" where
  "str_in k [] = (k = [])"
| "str_in k (c # cs) = (starts_with (c # cs) k \<or> str_in k cs)"

text \<open>\<^verbatim>\<open>any(k in q for k in ks)\<close>\<close>

definition any_in :: "pystr list \<Rightarrow> pystr \<Rightarrow> bool" where
  "any_in ks q = list_ex (\<lambda>k. str_in k q) ks"

subsection \<open>The texts of \<^verbatim>\<open>generate_reply\<close>\<close>

text \<open>
  Each constant is one parenthesised literal of the source, a line of the theory
  for a line of the source. The source appends \<^verbatim>\<open>disclaimer\<close> to each with
  \<^verbatim>\<open>+\<close>.
\<close>

definition disclaimer :: pystr where
  "disclaimer =
     ascii ''Note: This is general wellness information and not a medical diagnosis. '' @
     ascii ''Consult a qualified clinician for personalized care or urgent concerns.''"

definition tongue_text :: pystr where
  "tongue_text =
     ascii ''Tongue health quick read:'' @ nl @
     bullet @ ascii '' Typical: pink, moist, thin white coating.'' @ nl @
     bullet @ ascii '' Thick white/yellow coating: dehydration, oral hygiene issues, or possible fungal overgrowth.'' @ nl @
     bullet @ ascii '' Red/pebbled or very smooth: possible nutrient gaps (B12, iron), irritation, or heat/spice.'' @ nl @
     bullet @ ascii '' Ulcers/sores: consider trauma, stress, vitamin B/iron, or viral causes.'' @ nl @
     ascii ''Care steps: hydrate, brush tongue gently, avoid irritants, ensure balanced nutrition, and see a dentist/clinician if persistent (>2 weeks), painful, or with fever.'' @ nl @ nl"

definition fitness_text :: pystr where
  "fitness_text =
     ascii ''Smart training plan:'' @ nl @
     bullet @ ascii '' Weekly: 2'' @ en_dash @ ascii ''3 strength sessions + 150'' @ en_dash @ ascii ''300 min moderate cardio (or 75'' @ en_dash @ ascii ''150 min vigorous).'' @ nl @
     bullet @ ascii '' Lifts: focus on compounds (squat, hinge, push, pull), add accessories; 6'' @ en_dash @ ascii ''12 reps for hypertrophy, 2'' @ en_dash @ ascii ''3 RIR.'' @ nl @
     bullet @ ascii '' Progression: add small load or reps weekly; deload every 4'' @ en_dash @ ascii ''8 weeks.'' @ nl @
     bullet @ ascii '' Recovery: sleep 7'' @ en_dash @ ascii ''9h, protein 1.6'' @ en_dash @ ascii ''2.2 g/kg/day, manage stress.'' @ nl @ nl"

definition nutrition_text :: pystr where
  "nutrition_text =
     ascii ''Nutrition basics:'' @ nl @
     bullet @ ascii '' Build plates: 40% veggies, 30% lean protein, 20% smart carbs, 10% healthy fats.'' @ nl @
     bullet @ ascii '' Protein: ~1.6'' @ en_dash @ ascii ''2.2 g/kg/day; distribute across meals.'' @ nl @
     bullet @ ascii '' Fiber: 25'' @ en_dash @ ascii ''38 g/day from plants; hydrate well.'' @ nl @
     bullet @ ascii '' Weight goals: modest deficit (250'' @ en_dash @ ascii ''500 kcal) for fat loss; small surplus for muscle gain.'' @ nl @
     bullet @ ascii '' Adherence beats perfection'' @ em_dash @ ascii ''choose a pattern you can sustain.'' @ nl @ nl"

definition records_text :: pystr where
  "records_text =
     ascii ''Better health record-keeping:'' @ nl @
     bullet @ ascii '' Keep a simple log with dates for symptoms, diagnoses, meds/supplements, allergies, and key vitals (BP, HR, weight).'' @ nl @
     bullet @ ascii '' Track labs as a table (test, value, range, date); add notes and questions for your visit.'' @ nl @
     bullet @ ascii '' Export/share a concise summary (1 page) with your clinician.'' @ nl @
     bullet @ ascii '' Secure storage and backups are important; protect sensitive info.'' @ nl @ nl"

definition wellness_text :: pystr where
  "wellness_text =
     ascii ''Core wellness habits:'' @ nl @
     bullet @ ascii '' Sleep: 7'' @ en_dash @ ascii ''9 hours, consistent schedule, dark/cool room.'' @ nl @
     bullet @ ascii '' Stress: brief daily decompression (walks, breathing, journaling).'' @ nl @
     bullet @ ascii '' Movement: stand and stroll breaks every hour; sunlight in the morning.'' @ nl @
     bullet @ ascii '' Hydration: ~30'' @ en_dash @ ascii ''35 ml/kg/day; more in heat/exercise.'' @ nl @ nl"

definition urgent_text :: pystr where
  "urgent_text =
     ascii ''Your symptoms could be urgent. Please seek immediate in-person medical care or call local emergency services.'' @ nl @ nl"

definition default_text :: pystr where
  "default_text =
     ascii ''I can help with training plans, macro-friendly meals, tongue health cues, organizing medical records, and daily wellness habits. '' @
     ascii ''Tell me more about your goal or question (e.g., '3-day full-body plan' or 'interpret white tongue coating').'' @ nl @ nl"

subsection \<open>\<^verbatim>\<open>generate_reply\<close>\<close>

definition generate_reply :: "pystr \<Rightarrow> pystr" where
  "generate_reply text =
     (let q = strip (lower text) in
      if any_in 
           [ascii ''tongue'', ascii ''coating'', ascii ''ulcer'', ascii ''sores'', ascii ''oral'', ascii ''thrush'', ascii ''mouth'']
           q
      then tongue_text @ disclaimer
      else if any_in 
           [ascii ''workout'', ascii ''training'', ascii ''gym'', ascii ''strength'', ascii ''cardio'', ascii ''hypertrophy'', ascii ''fat loss'', ascii ''muscle'']
           q
      then fitness_text @ disclaimer
      else if any_in 
           [ascii ''diet'', ascii ''nutrition'', ascii ''protein'', ascii ''calorie'', ascii ''macro'', ascii ''meal'', ascii ''keto'', ascii ''fasting'', ascii ''fiber'']
           q
      then nutrition_text @ disclaimer
      else if any_in 
           [ascii ''records'', ascii ''labs'', ascii ''blood work'', ascii ''medical history'', ascii ''medication'', ascii ''symptom'', ascii ''log'', ascii ''trend'']
           q
      then records_text @ disclaimer
      else if any_in 
           [ascii ''sleep'', ascii ''stress'', ascii ''wellness'', ascii ''energy'', ascii ''recovery'', ascii ''habit'', ascii ''routine'', ascii ''mindfulness'', ascii ''hydrate'']
           q
      then wellness_text @ disclaimer
      else if any_in 
           [ascii ''chest pain'', ascii ''shortness of breath'', ascii ''severe'', ascii ''emergency'', ascii ''fainted'', ascii ''suicidal'', ascii ''stroke'']
           q
      then urgent_text @ disclaimer
      else default_text @ disclaimer)"

subsection \<open>The endpoint \<^verbatim>\<open>POST /api/chat\<close>\<close>

text \<open>
  The request model has the message and an optional list of earlier turns; the
  handler reads the message only.
\<close>

datatype role = User | Assistant

record Message =
  role :: role
  content :: pystr

record ChatRequest =
  message :: pystr
  history :: "Message list option"

record ChatResponse =
  reply :: pystr

definition chat :: "ChatRequest \<Rightarrow> ChatResponse" where
  "chat req = (let r = generate_reply (message req) in \<lparr>reply = r\<rparr>)"

subsection \<open>The specification's reading: an ordered list of categories\<close>

text \<open>
  The specification describes the function as a scan over an ordered list of
  categories, each a keyword set with a response template, where the first category
  with a substring match wins and the default answers when none matches. These
  definitions follow that wording; the theorems compare them with
  \<open>generate_reply\<close>.
\<close>

definition oral_keywords :: "pystr list" where
  "oral_keywords =
     [ascii ''tongue'', ascii ''coating'', ascii ''ulcer'', ascii ''sores'', ascii ''oral'',
      ascii ''thrush'', ascii ''mouth'']"

definition fitness_keywords :: "pystr list" where
  "fitness_keywords =
     [ascii ''workout'', ascii ''training'', ascii ''gym'', ascii ''strength'', ascii ''cardio'',
      ascii ''hypertrophy'', ascii ''fat loss'', ascii ''muscle'']"

definition nutrition_keywords :: "pystr list" where
  "nutrition_keywords =
     [ascii ''diet'', ascii ''nutrition'', ascii ''protein'', ascii ''calorie'', ascii ''macro'',
      ascii ''meal'', ascii ''keto'', ascii ''fasting'', ascii ''fiber'']"

definition records_keywords :: "pystr list" where
  "records_keywords =
     [ascii ''records'', ascii ''labs'', ascii ''blood work'', ascii ''medical history'',
      ascii ''medication'', ascii ''symptom'', ascii ''log'', ascii ''trend'']"

definition wellness_keywords :: "pystr list" where
  "wellness_keywords =
     [ascii ''sleep'', ascii ''stress'', ascii ''wellness'', ascii ''energy'', ascii ''recovery'',
      ascii ''habit'', ascii ''routine'', ascii ''mindfulness'', ascii ''hydrate'']"

definition urgent_keywords :: "pystr list" where
  "urgent_keywords =
     [ascii ''chest pain'', ascii ''shortness of breath'', ascii ''severe'', ascii ''emergency'',
      ascii ''fainted'', ascii ''suicidal'', ascii ''stroke'']"

definition all_keywords :: "pystr list" where
  "all_keywords =
     oral_keywords @ fitness_keywords @ nutrition_keywords @ records_keywords @
     wellness_keywords @ urgent_keywords"

text \<open>
  What the keywords have in common: none is empty, none starts or ends with white
  space, and all consist of ASCII code points that are not upper-case letters.
\<close>

definition plain_keyword :: "pystr \<Rightarrow> bool" where
  "plain_keyword k \<longleftrightarrow>
     k \<noteq> [] \<and> \<not> isspace (hd k) \<and> \<not> isspace (last k) \<and>
     list_all (\<lambda>c. c < 0x80 \<and> \<not> (0x41 \<le> c \<and> c \<le> 0x5A)) k"

type_synonym category = "pystr list \<times> pystr"

definition categories :: "category list" where
  "categories =
     [(oral_keywords, tongue_text @ disclaimer),
      (fitness_keywords, fitness_text @ disclaimer),
      (nutrition_keywords, nutrition_text @ disclaimer),
      (records_keywords, records_text @ disclaimer),
      (wellness_keywords, wellness_text @ disclaimer),
      (urgent_keywords, urgent_text @ disclaimer)]"

definition default_reply :: pystr where
  "default_reply = default_text @ disclaimer"

definition matches :: "category \<Rightarrow> pystr \<Rightarrow> bool" where
  "matches c q = any_in (fst c) q"

fun first_match :: "category list \<Rightarrow> pystr \<Rightarrow> pystr" where
  "first_match [] q = default_reply"
| "first_match (c # cs) q = (if matches c q then snd c else first_match cs q)"

definition normalized :: "pystr \<Rightarrow> pystr" where
  "normalized text = strip (lower text)"

text \<open>
  Letter case, as the program folds it. \<^verbatim>\<open>str.lower()\<close> turns a capital ASCII
  letter into the small one 0x20 above it and the Kelvin sign U+212A into \<open>k\<close>;
  these are the pairs written out here, without reference to \<open>lower_cp\<close>. A code
  point outside ASCII other than U+0130 and U+212A never reaches a keyword test as
  an ASCII letter, whatever its case: such code points are \<open>beyond_table\<close>, and two
  strings may differ in them at will.
\<close>

definition ascii_case_pair :: "nat \<Rightarrow> nat \<Rightarrow> bool" where
  "ascii_case_pair c d \<longleftrightarrow> 0x41 \<le> c \<and> c \<le> 0x5A \<and> d = c + 0x20"

definition kelvin_pair :: "nat \<Rightarrow> nat \<Rightarrow> bool" where
  "kelvin_pair c d \<longleftrightarrow> c = 0x212A \<and> (d = 0x4B \<or> d = 0x6B)"

definition beyond_table :: "nat \<Rightarrow> bool" where
  "beyond_table c \<longleftrightarrow> 0x80 \<le> c \<and> c \<noteq> 0x130 \<and> c \<noteq> 0x212A"

definition folded_alike :: "nat \<Rightarrow> nat \<Rightarrow> bool" where
  "folded_alike c d \<longleftrightarrow>
     c = d \<or> ascii_case_pair c d \<or> ascii_case_pair d c \<or> kelvin_pair c d \<or> kelvin_pair d c \<or>
     (beyond_table c \<and> beyond_table d)"

definition differs_only_in_folded_case :: "pystr \<Rightarrow> pystr \<Rightarrow> bool" where
  "differs_only_in_folded_case s t = list_all2 folded_alike s t"

text \<open>
  Letter case in Unicode has more pairs than these. \<^verbatim>\<open>str.upper()\<close> turns a
  small ASCII letter into the capital 0x20 below it, keeps every other ASCII code
  point, and turns U+017F (long s) into \<open>S\<close> and U+0131 (dotless i) into \<open>I\<close>;
  \<^verbatim>\<open>str.lower()\<close> keeps both of these, which are small letters already. The rest
  of the upper-case table is not written out: \<open>upper\<close> gives \<open>None\<close> on a string
  with any other code point.
\<close>

definition upper_cp :: "nat \<Rightarrow> pystr option" where
  "upper_cp c =
     (if 0x61 \<le> c \<and> c \<le> 0x7A then Some [c - 0x20]
      else if c < 0x80 then Some [c]
      else if c = 0x17F then Some [0x53]
      else if c = 0x131 then Some [0x49]
      else None)"

fun upper :: "pystr \<Rightarrow> pystr option" where
  "upper [] = Some []"
| "upper (c # cs) =
     (case upper_cp c of
        None \<Rightarrow> None
      | Some u \<Rightarrow> (case upper cs of None \<Rightarrow> None | Some us \<Rightarrow> Some (u @ us)))"

text \<open>
  \<open>in_any_case w k\<close>: the string \<open>w\<close> spells the lower-case ASCII word \<open>k\<close>, each
  letter in either case (an upper-case ASCII letter is 0x20 below the lower-case
  one).
\<close>

definition in_any_case :: "pystr \<Rightarrow> pystr \<Rightarrow> bool" where
  "in_any_case w k = list_all2 (\<lambda>c x. c = x \<or> c + 0x20 = x) w k"

section \<open>Basic facts\<close>

subsection \<open>Substrings\<close>

lemma starts_with_iff: "starts_with q k \<longleftrightarrow> (\<exists>b. q = k @ b)"
  by (induction q k rule: starts_with.induct) auto

lemma str_in_iff: "str_in k q \<longleftrightarrow> (\<exists>a b. q = a @ k @ b)"
proof (induction q)
  case Nil
  then show ?case by simp
next
  case (Cons c cs)
  show ?case
  proof
    assume "str_in k (c # cs)"
    then consider "starts_with (c # cs) k" | "str_in k cs" by auto
    then show "\<exists>a b. c # cs = a @ k @ b"
    proof cases
      case 1
      then obtain b where "c # cs = k @ b" by (auto simp: starts_with_iff)
      then have "c # cs = [] @ k @ b" by simp
      then show ?thesis by blast
    next
      case 2
      with Cons.IH obtain a b where "cs = a @ k @ b" by blast
      then have "c # cs = (c # a) @ k @ b" by simp
      then show ?thesis by blast
    qed
  next
    assume "\<exists>a b. c # cs = a @ k @ b"
    then obtain a b where ab: "c # cs = a @ k @ b" by blast
    show "str_in k (c # cs)"
    proof (cases a)
      case Nil
      with ab have "starts_with (c # cs) k" by (auto simp: starts_with_iff)
      then show ?thesis by simp
    next
      case (Cons x a')
      with ab have "cs = a' @ k @ b" by simp
      with Cons.IH have "str_in k cs" by blast
      then show ?thesis by simp
    qed
  qed
qed

lemma str_in_rev: "str_in (rev k) (rev q) = str_in k q"
proof -
  have "(\<exists>a b. rev q = a @ rev k @ b) \<longleftrightarrow> (\<exists>a b. q = a @ k @ b)"
  proof
    assume "\<exists>a b. rev q = a @ rev k @ b"
    then obtain a b where "rev q = a @ rev k @ b" by blast
    then have "rev (rev q) = rev (a @ rev k @ b)" by simp
    then have "q = rev b @ k @ rev a" by simp
    then show "\<exists>a b. q = a @ k @ b" by blast
  next
    assume "\<exists>a b. q = a @ k @ b"
    then obtain a b where "q = a @ k @ b" by blast
    then have "rev q = rev b @ rev k @ rev a" by simp
    then show "\<exists>a b. rev q = a @ rev k @ b" by blast
  qed
  then show ?thesis by (simp add: str_in_iff)
qed

lemma str_in_dropWhile:
  assumes "k \<noteq> []" and "\<not> P (hd k)"
  shows "str_in k (dropWhile P q) = str_in k q"
proof (induction q)
  case Nil
  then show ?case by simp
next
  case (Cons c cs)
  show ?case
  proof (cases "P c")
    case True
    from assms obtain x ks where k: "k = x # ks" and "\<not> P x" by (cases k) auto
    with True have "\<not> starts_with (c # cs) k" by auto
    with True Cons.IH show ?thesis by simp
  next
    case False
    then show ?thesis by simp
  qed
qed

lemma str_in_strip:
  assumes "k \<noteq> []" and "\<not> isspace (hd k)" and "\<not> isspace (last k)"
  shows "str_in k (strip q) = str_in k q"
proof -
  have r: "rev k \<noteq> []" "\<not> isspace (hd (rev k))"
    using assms by (simp_all add: hd_rev)
  have "str_in k (strip q) = str_in (rev k) (dropWhile isspace (rev (dropWhile isspace q)))"
    unfolding strip_def by (metis str_in_rev rev_rev_ident)
  also have "\<dots> = str_in (rev k) (rev (dropWhile isspace q))"
    using r by (rule str_in_dropWhile)
  also have "\<dots> = str_in k (dropWhile isspace q)"
    by (rule str_in_rev)
  also have "\<dots> = str_in k q"
    using assms(1,2) by (rule str_in_dropWhile)
  finally show ?thesis .
qed

subsection \<open>Stripping\<close>

lemma strip_decomp:
  "\<exists>a b. s = a @ strip s @ b \<and> list_all isspace a \<and> list_all isspace b"
proof -
  define d where "d = dropWhile isspace s"
  define a where "a = takeWhile isspace s"
  define b where "b = rev (takeWhile isspace (rev d))"
  have 1: "s = a @ d" by (simp add: a_def d_def)
  have "rev (takeWhile isspace (rev d) @ dropWhile isspace (rev d)) = rev (rev d)"
    by (simp only: takeWhile_dropWhile_id)
  then have "rev (dropWhile isspace (rev d)) @ rev (takeWhile isspace (rev d)) = d"
    by (simp only: rev_append rev_rev_ident)
  then have 2: "d = strip s @ b" by (simp only: strip_def b_def d_def)
  have 3: "list_all isspace a"
    by (auto simp: a_def list_all_iff dest: set_takeWhileD)
  have 4: "list_all isspace b"
    by (auto simp: b_def list_all_iff dest: set_takeWhileD)
  from 1 2 3 4 show ?thesis by auto
qed

lemma strip_ends:
  assumes "strip s \<noteq> []"
  shows "\<not> isspace (hd (strip s))" and "\<not> isspace (last (strip s))"
proof -
  define d where "d = dropWhile isspace s"
  define e where "e = dropWhile isspace (rev d)"
  have se: "strip s = rev e" by (simp add: strip_def e_def d_def)
  with assms have e: "e \<noteq> []" by simp
  then have d: "d \<noteq> []" by (auto simp: e_def)
  from e have "\<not> isspace (hd e)" unfolding e_def by (rule hd_dropWhile)
  then show "\<not> isspace (last (strip s))" using e by (simp add: se last_rev)
  have "rev d = takeWhile isspace (rev d) @ e" by (simp add: e_def)
  with e have "last (rev d) = last e" by (metis last_appendR)
  then have "last e = hd d" using d by (simp add: last_rev)
  moreover from d have "\<not> isspace (hd d)" unfolding d_def by (rule hd_dropWhile)
  ultimately show "\<not> isspace (hd (strip s))" using e by (simp add: se hd_rev)
qed

lemma dropWhile_all: "list_all P a \<Longrightarrow> dropWhile P (a @ m) = dropWhile P m"
  by (induction a) auto

lemma dropWhile_none: "m = [] \<or> \<not> P (hd m) \<Longrightarrow> dropWhile P m = m"
  by (cases m) auto

lemma strip_unique:
  assumes a: "list_all isspace a" and b: "list_all isspace b"
    and m: "m = [] \<or> (\<not> isspace (hd m) \<and> \<not> isspace (last m))"
  shows "strip (a @ m @ b) = m"
proof (cases "m = []")
  case True
  from b have "dropWhile isspace b = []" by (simp add: list_all_iff)
  with True a show ?thesis by (auto simp: strip_def dropWhile_all dest: set_dropWhileD)
next
  case False
  with m have h: "\<not> isspace (hd m)" and l: "\<not> isspace (last m)" by auto
  from False h have "dropWhile isspace (m @ b) = m @ b" by (cases m) auto
  with a have 1: "dropWhile isspace (a @ m @ b) = m @ b" by (simp add: dropWhile_all)
  from b have rb: "list_all isspace (rev b)" by (simp add: list_all_iff)
  from False l have "dropWhile isspace (rev m) = rev m"
    by (intro dropWhile_none) (simp add: hd_rev)
  with rb have "dropWhile isspace (rev b @ rev m) = rev m" by (simp add: dropWhile_all)
  with 1 show ?thesis by (simp add: strip_def)
qed

lemma strip_idem: "strip (strip s) = strip s"
proof -
  have "strip ([] @ strip s @ []) = strip s"
    by (rule strip_unique) (use strip_ends[of s] in auto)
  then show ?thesis by simp
qed

subsection \<open>Lower-casing\<close>

lemma lower_append: "lower (a @ b) = lower a @ lower b"
  by (simp add: lower_def)

lemma lower_cp_space: "isspace c \<Longrightarrow> lower_cp c = [c]"
  by (auto simp: isspace_def lower_cp_def)

lemma lower_space: "list_all isspace a \<Longrightarrow> lower a = a"
  by (induction a) (auto simp: lower_def lower_cp_space)

lemma lower_cp_nonspace: "\<not> isspace c \<Longrightarrow> x \<in> set (lower_cp c) \<Longrightarrow> \<not> isspace x"
  by (auto simp: isspace_def lower_cp_def split: if_splits)

lemma lower_cp_nonempty: "lower_cp c \<noteq> []"
  by (simp add: lower_cp_def)

lemma lower_cp_idem: "lower (lower_cp c) = lower_cp c"
  by (simp add: lower_def lower_cp_def)

lemma lower_idem: "lower (lower s) = lower s"
proof (induction s)
  case Nil
  then show ?case by (simp add: lower_def)
next
  case (Cons c cs)
  have "lower (c # cs) = lower_cp c @ lower cs" by (simp add: lower_def)
  then show ?case using Cons by (simp add: lower_append lower_cp_idem)
qed

lemma lower_ends:
  assumes "m \<noteq> []" and "\<not> isspace (hd m)" and "\<not> isspace (last m)"
  shows "lower m \<noteq> []" and "\<not> isspace (hd (lower m))" and "\<not> isspace (last (lower m))"
proof -
  from assms(1) obtain c cs where m: "m = c # cs" by (cases m) auto
  then have lm: "lower m = lower_cp c @ lower cs" by (simp add: lower_def)
  then show "lower m \<noteq> []" by (simp add: lower_cp_nonempty)
  have "hd (lower m) = hd (lower_cp c)" using lm by (simp add: lower_cp_nonempty)
  moreover have "hd (lower_cp c) \<in> set (lower_cp c)" by (simp add: lower_cp_nonempty)
  ultimately show "\<not> isspace (hd (lower m))"
    using assms(2) m lower_cp_nonspace[of c] by auto
  from assms(1) have "m = butlast m @ [last m]" by simp
  then have "lower m = lower (butlast m) @ lower [last m]" by (metis lower_append)
  then have lm2: "lower m = lower (butlast m) @ lower_cp (last m)" by (simp add: lower_def)
  then have "last (lower m) = last (lower_cp (last m))" by (simp add: lower_cp_nonempty)
  moreover have "last (lower_cp (last m)) \<in> set (lower_cp (last m))"
    by (simp add: lower_cp_nonempty)
  ultimately show "\<not> isspace (last (lower m))"
    using assms(3) lower_cp_nonspace[of "last m"] by auto
qed

lemma strip_lower: "strip (lower s) = lower (strip s)"
proof -
  obtain a b where s: "s = a @ strip s @ b" and a: "list_all isspace a" and b: "list_all isspace b"
    using strip_decomp by blast
  have "lower s = lower (a @ strip s @ b)" using s by simp
  then have ls: "lower s = a @ lower (strip s) @ b"
    using a b by (simp add: lower_append lower_space)
  have "strip (a @ lower (strip s) @ b) = lower (strip s)"
  proof (rule strip_unique[OF a b])
    show "lower (strip s) = [] \<or>
      \<not> isspace (hd (lower (strip s))) \<and> \<not> isspace (last (lower (strip s)))"
    proof (cases "strip s = []")
      case True
      then show ?thesis by (simp add: lower_def)
    next
      case False
      then show ?thesis using strip_ends[OF False] lower_ends[of "strip s"] by blast
    qed
  qed
  with ls show ?thesis by simp
qed

subsection \<open>Keywords and the normalised message\<close>

lemma generate_reply_unfold:
  "generate_reply text =
     (if any_in oral_keywords (normalized text) then tongue_text @ disclaimer
      else if any_in fitness_keywords (normalized text) then fitness_text @ disclaimer
      else if any_in nutrition_keywords (normalized text) then nutrition_text @ disclaimer
      else if any_in records_keywords (normalized text) then records_text @ disclaimer
      else if any_in wellness_keywords (normalized text) then wellness_text @ disclaimer
      else if any_in urgent_keywords (normalized text) then urgent_text @ disclaimer
      else default_text @ disclaimer)"
  unfolding generate_reply_def normalized_def oral_keywords_def fitness_keywords_def
    nutrition_keywords_def records_keywords_def wellness_keywords_def urgent_keywords_def Let_def
  by (rule refl)

lemma plain_keywords: "list_all plain_keyword all_keywords"
  by (simp add: all_keywords_def oral_keywords_def fitness_keywords_def nutrition_keywords_def
      records_keywords_def wellness_keywords_def urgent_keywords_def plain_keyword_def
      ascii_def isspace_def)

lemma any_in_iff: "any_in ks q \<longleftrightarrow> (\<exists>k\<in>set ks. str_in k q)"
  by (simp add: any_in_def list_ex_iff)

lemma str_in_strip_plain: "plain_keyword k \<Longrightarrow> str_in k (strip q) = str_in k q"
  by (rule str_in_strip) (simp_all add: plain_keyword_def)

lemma any_in_strip: "list_all plain_keyword ks \<Longrightarrow> any_in ks (strip q) = any_in ks q"
  by (auto simp: any_in_iff list_all_iff str_in_strip_plain)

lemma keywords_plain:
  "list_all plain_keyword oral_keywords" "list_all plain_keyword fitness_keywords"
  "list_all plain_keyword nutrition_keywords" "list_all plain_keyword records_keywords"
  "list_all plain_keyword wellness_keywords" "list_all plain_keyword urgent_keywords"
  using plain_keywords by (simp_all add: all_keywords_def)

lemma any_in_all_keywords:
  "any_in all_keywords q \<longleftrightarrow>
     any_in oral_keywords q \<or> any_in fitness_keywords q \<or> any_in nutrition_keywords q \<or>
     any_in records_keywords q \<or> any_in wellness_keywords q \<or> any_in urgent_keywords q"
  by (auto simp: any_in_iff all_keywords_def)

lemma normalized_Nil: "normalized [] = []"
  by (simp add: normalized_def lower_def strip_def)

lemma any_in_Nil: "list_all plain_keyword ks \<Longrightarrow> \<not> any_in ks []"
  by (auto simp: any_in_iff list_all_iff plain_keyword_def)

lemma generate_reply_Nil: "generate_reply [] = default_text @ disclaimer"
  by (simp add: generate_reply_unfold normalized_Nil any_in_Nil keywords_plain)

lemma normalized_space: "list_all isspace s \<Longrightarrow> normalized s = []"
proof -
  assume s: "list_all isspace s"
  have "strip (s @ [] @ []) = []" by (rule strip_unique) (use s in simp_all)
  with s show ?thesis by (simp add: normalized_def lower_space)
qed

subsection \<open>The scan, the texts, letter case\<close>

lemma generate_reply_lower:
  "generate_reply text =
     (if any_in oral_keywords (lower text) then tongue_text @ disclaimer
      else if any_in fitness_keywords (lower text) then fitness_text @ disclaimer
      else if any_in nutrition_keywords (lower text) then nutrition_text @ disclaimer
      else if any_in records_keywords (lower text) then records_text @ disclaimer
      else if any_in wellness_keywords (lower text) then wellness_text @ disclaimer
      else if any_in urgent_keywords (lower text) then urgent_text @ disclaimer
      else default_text @ disclaimer)"
  unfolding generate_reply_unfold normalized_def by (simp only: any_in_strip keywords_plain)

lemma first_match_index:
  "i < length cs \<Longrightarrow> matches (cs ! i) q \<Longrightarrow> (\<forall>j<i. \<not> matches (cs ! j) q) \<Longrightarrow>
     first_match cs q = snd (cs ! i)"
proof (induction cs arbitrary: i)
  case Nil
  then show ?case by simp
next
  case (Cons c cs)
  show ?case
  proof (cases i)
    case 0
    with Cons.prems show ?thesis by simp
  next
    case (Suc n)
    with Cons.prems have "\<not> matches c q" by auto
    moreover have "first_match cs q = snd (cs ! n)"
    proof (rule Cons.IH)
      show "n < length cs" using Cons.prems Suc by simp
      show "matches (cs ! n) q" using Cons.prems Suc by simp
      show "\<forall>j<n. \<not> matches (cs ! j) q"
      proof (intro allI impI)
        fix j assume "j < n"
        then have "Suc j < i" using Suc by simp
        with Cons.prems(3) have "\<not> matches ((c # cs) ! Suc j) q" by blast
        then show "\<not> matches (cs ! j) q" by simp
      qed
    qed
    ultimately show ?thesis using Suc by simp
  qed
qed

lemma generate_reply_scan: "generate_reply text = first_match categories (normalized text)"
  by (simp add: generate_reply_unfold categories_def matches_def default_reply_def)

lemma replies_distinct:
  "distinct [tongue_text @ disclaimer, fitness_text @ disclaimer, nutrition_text @ disclaimer,
     records_text @ disclaimer, wellness_text @ disclaimer, urgent_text @ disclaimer,
     default_text @ disclaimer]"
  by (simp add: tongue_text_def fitness_text_def nutrition_text_def records_text_def
      wellness_text_def urgent_text_def default_text_def ascii_def)

lemma near_lower_cp:
  assumes "folded_alike c d"
  shows "list_all2 (\<lambda>a b. a = b \<or> (0x80 \<le> a \<and> 0x80 \<le> b)) (lower_cp c) (lower_cp d)"
proof -
  from assms consider "c = d" | "ascii_case_pair c d" | "ascii_case_pair d c"
    | "kelvin_pair c d" | "kelvin_pair d c" | "beyond_table c" "beyond_table d"
    by (auto simp: folded_alike_def)
  then show ?thesis
  proof cases
    case 1
    then show ?thesis by (simp add: list.rel_refl)
  next
    case 2
    then show ?thesis by (auto simp: ascii_case_pair_def lower_cp_def)
  next
    case 3
    then show ?thesis by (auto simp: ascii_case_pair_def lower_cp_def)
  next
    case 4
    then show ?thesis by (auto simp: kelvin_pair_def lower_cp_def)
  next
    case 5
    then show ?thesis by (auto simp: kelvin_pair_def lower_cp_def)
  next
    case 6
    then show ?thesis by (simp add: beyond_table_def lower_cp_def)
  qed
qed

lemma near_lower:
  "list_all2 folded_alike s t \<Longrightarrow>
     list_all2 (\<lambda>a b. a = b \<or> (0x80 \<le> a \<and> 0x80 \<le> b)) (lower s) (lower t)"
proof (induction rule: list_all2_induct)
  case Nil
  then show ?case by (simp add: lower_def)
next
  case (Cons c s d t)
  have "lower (c # s) = lower_cp c @ lower s" "lower (d # t) = lower_cp d @ lower t"
    by (simp_all add: lower_def)
  with Cons near_lower_cp[of c d] show ?case by (simp add: list_all2_appendI)
qed

lemma near_ascii:
  assumes "list_all2 (\<lambda>a b. a = b \<or> (0x80 \<le> a \<and> 0x80 \<le> b)) k k'"
    and "list_all (\<lambda>c. c < (0x80::nat)) k"
  shows "k' = k"
proof -
  have "list_all2 (=) k k'"
    using assms(1)
  proof (rule list.rel_mono_strong)
    fix a b assume "a \<in> set k" and "a = b \<or> (0x80 \<le> a \<and> 0x80 \<le> b)"
    with assms(2) show "a = b" by (auto simp: list_all_iff)
  qed
  then show ?thesis by (simp add: list.rel_eq)
qed

lemma str_in_near:
  assumes q: "list_all2 (\<lambda>a b. a = b \<or> (0x80 \<le> a \<and> 0x80 \<le> b)) q q'"
    and k: "list_all (\<lambda>c. c < (0x80::nat)) k"
    and "str_in k q"
  shows "str_in k q'"
proof -
  from assms(3) obtain a b where "q = a @ k @ b" by (auto simp: str_in_iff)
  with q obtain a' r where 1: "q' = a' @ r"
    and 2: "list_all2 (\<lambda>a b. a = b \<or> (0x80 \<le> a \<and> 0x80 \<le> b)) (k @ b) r"
    by (auto simp: list_all2_append1)
  from 2 obtain k' b' where 3: "r = k' @ b'"
    and 4: "list_all2 (\<lambda>a b. a = b \<or> (0x80 \<le> a \<and> 0x80 \<le> b)) k k'"
    by (auto simp: list_all2_append1)
  from 4 k have "k' = k" by (rule near_ascii)
  with 1 3 have "q' = a' @ k @ b'" by simp
  then show ?thesis by (auto simp: str_in_iff)
qed

lemma plain_keyword_ascii: "plain_keyword k \<Longrightarrow> list_all (\<lambda>c. c < (0x80::nat)) k"
  by (auto simp: plain_keyword_def list_all_iff)

lemma any_in_folded_alike:
  assumes st: "list_all2 folded_alike s t" and ks: "list_all plain_keyword ks"
  shows "any_in ks (lower s) = any_in ks (lower t)"
proof -
  have fwd: "list_all2 (\<lambda>a b. a = b \<or> (0x80 \<le> a \<and> 0x80 \<le> b)) (lower s) (lower t)"
    using st by (rule near_lower)
  have "list_all2 (\<lambda>b a. a = b \<or> (0x80 \<le> a \<and> 0x80 \<le> b)) (lower t) (lower s)"
    using fwd by (simp add: list_all2_conv_all_nth)
  then have bwd: "list_all2 (\<lambda>a b. a = b \<or> (0x80 \<le> a \<and> 0x80 \<le> b)) (lower t) (lower s)"
    by (rule list_all2_mono) auto
  have "str_in k (lower s) = str_in k (lower t)" if "k \<in> set ks" for k
  proof -
    from that ks have "list_all (\<lambda>c. c < (0x80::nat)) k"
      by (auto simp: list_all_iff intro: plain_keyword_ascii[unfolded list_all_iff, rule_format])
    then show ?thesis using str_in_near[OF fwd] str_in_near[OF bwd] by blast
  qed
  then show ?thesis by (simp add: any_in_iff)
qed

lemma lower_in_any_case:
  "list_all2 (\<lambda>c x. c = x \<or> c + 0x20 = x) w k \<Longrightarrow>
     list_all (\<lambda>x. 0x61 \<le> x \<and> x \<le> (0x7A::nat)) k \<Longrightarrow> lower w = k"
proof (induction rule: list_all2_induct)
  case Nil
  then show ?case by (simp add: lower_def)
next
  case (Cons c w x k)
  then have "lower_cp c = [x]" by (auto simp: lower_cp_def)
  moreover have "lower (c # w) = lower_cp c @ lower w" by (simp add: lower_def)
  ultimately show ?case using Cons by simp
qed

lemma generate_reply_cong: "normalized s = normalized t \<Longrightarrow> generate_reply s = generate_reply t"
  by (simp add: generate_reply_unfold)

lemma strip_pad:
  assumes u: "list_all isspace u" and v: "list_all isspace v"
  shows "strip (u @ x @ v) = strip x"
proof -
  obtain a b where x: "x = a @ strip x @ b" and a: "list_all isspace a" and b: "list_all isspace b"
    using strip_decomp by blast
  have "strip ((u @ a) @ strip x @ (b @ v)) = strip x"
  proof (rule strip_unique)
    show "list_all isspace (u @ a)" using u a by simp
    show "list_all isspace (b @ v)" using b v by simp
    show "strip x = [] \<or> \<not> isspace (hd (strip x)) \<and> \<not> isspace (last (strip x))"
      using strip_ends[of x] by blast
  qed
  moreover have "u @ x @ v = (u @ a) @ strip x @ (b @ v)"
    using x by (metis append_assoc)
  ultimately show ?thesis by (simp only:)
qed

lemma normalized_pad:
  assumes "list_all isspace u" and "list_all isspace v"
  shows "normalized (u @ s @ v) = normalized s"
proof -
  have "lower (u @ s @ v) = u @ lower s @ v"
    using assms by (simp add: lower_append lower_space)
  then show ?thesis using assms by (simp add: normalized_def strip_pad)
qed

lemma normalized_lower_strip: "normalized (lower (strip s)) = normalized s"
proof -
  have "normalized (lower (strip s)) = strip (lower (strip s))"
    by (simp add: normalized_def lower_idem)
  also have "\<dots> = strip (strip (lower s))" by (simp add: strip_lower)
  also have "\<dots> = normalized s" by (simp add: strip_idem normalized_def)
  finally show ?thesis .
qed

lemma generate_reply_cases:
  "generate_reply text \<in> set
     [tongue_text @ disclaimer, fitness_text @ disclaimer, nutrition_text @ disclaimer,
      records_text @ disclaimer, wellness_text @ disclaimer, urgent_text @ disclaimer,
      default_text @ disclaimer]"
  by (simp add: generate_reply_unfold)

lemma ends_here: "s = [] @ s"
  by simp

lemma ends_later: "x = b @ s \<Longrightarrow> a @ x = (a @ b) @ s"
  by simp

lemma texts_end_nl_nl:
  "\<exists>b. tongue_text = b @ nl @ nl" "\<exists>b. fitness_text = b @ nl @ nl"
  "\<exists>b. nutrition_text = b @ nl @ nl" "\<exists>b. records_text = b @ nl @ nl"
  "\<exists>b. wellness_text = b @ nl @ nl" "\<exists>b. urgent_text = b @ nl @ nl"
  "\<exists>b. default_text = b @ nl @ nl"
  unfolding tongue_text_def fitness_text_def nutrition_text_def records_text_def
    wellness_text_def urgent_text_def default_text_def
  by (rule exI, (rule ends_here | rule ends_later)+)+

lemma replies_end:
  assumes "r \<in> set
     [tongue_text @ disclaimer, fitness_text @ disclaimer, nutrition_text @ disclaimer,
      records_text @ disclaimer, wellness_text @ disclaimer, urgent_text @ disclaimer,
      default_text @ disclaimer]"
  shows "\<exists>body. r = body @ nl @ nl @ disclaimer"
proof -
  from assms obtain t where r: "r = t @ disclaimer" and "\<exists>b. t = b @ nl @ nl"
    using texts_end_nl_nl by auto
  then obtain b where "t = b @ nl @ nl" by blast
  with r have "r = b @ nl @ nl @ disclaimer" by simp
  then show ?thesis by blast
qed

text \<open>The definitions a concrete run unfolds.\<close>

lemmas run_defs = normalized_def lower_def lower_cp_def strip_def isspace_def ascii_def any_in_def
  all_keywords_def oral_keywords_def fitness_keywords_def nutrition_keywords_def
  records_keywords_def wellness_keywords_def urgent_keywords_def

section \<open>The claims of the specification\<close>

subsection \<open>C1: the first matching category wins\<close>

text \<open>
  Claim C1. For every message, \<open>generate_reply\<close> tries the categories in the
  fixed order oral, fitness, nutrition, records, wellness, urgent, default, and
  returns the reply of the first category one of whose keywords is a substring of
  the normalised message. The function of the source is equal to the scan
  \<open>first_match\<close> over the ordered list \<open>categories\<close>; when category \<open>i\<close>
  matches and no category before it does, the reply is that of category \<open>i\<close>;
  the seven replies are pairwise different, so this is never the reply of a later
  category. The message "tongue workout" matches both the first and the second
  category and gets the tongue reply, not the fitness reply.
\<close>

theorem generate_reply_first_match:
  "generate_reply text = first_match categories (normalized text) \<and>
   (i < length categories \<and> matches (categories ! i) (normalized text) \<and>
      (\<forall>j<i. \<not> matches (categories ! j) (normalized text)) \<longrightarrow>
      generate_reply text = snd (categories ! i)) \<and>
   map fst categories =
     [oral_keywords, fitness_keywords, nutrition_keywords, records_keywords, wellness_keywords,
      urgent_keywords] \<and>
   distinct (map snd categories @ [default_reply]) \<and>
   matches (categories ! 0) (normalized (ascii ''tongue workout'')) \<and>
   matches (categories ! 1) (normalized (ascii ''tongue workout'')) \<and>
   generate_reply (ascii ''tongue workout'') = tongue_text @ disclaimer \<and>
   generate_reply (ascii ''tongue workout'') \<noteq> fitness_text @ disclaimer"
proof -
  have scan: "generate_reply text = first_match categories (normalized text)"
    by (rule generate_reply_scan)
  have idx: "generate_reply text = snd (categories ! i)"
    if "i < length categories" "matches (categories ! i) (normalized text)"
      "\<forall>j<i. \<not> matches (categories ! j) (normalized text)"
    using that by (simp only: scan first_match_index)
  have order: "map fst categories =
     [oral_keywords, fitness_keywords, nutrition_keywords, records_keywords, wellness_keywords,
      urgent_keywords]"
    by (simp add: categories_def)
  have dist: "distinct (map snd categories @ [default_reply])"
    using replies_distinct by (simp add: categories_def default_reply_def)
  have m0: "matches (categories ! 0) (normalized (ascii ''tongue workout''))"
    by (simp add: categories_def matches_def run_defs)
  have m1: "matches (categories ! 1) (normalized (ascii ''tongue workout''))"
    by (simp add: categories_def matches_def run_defs)
  have ex: "generate_reply (ascii ''tongue workout'') = tongue_text @ disclaimer"
    by (simp add: generate_reply_unfold run_defs)
  have "tongue_text @ disclaimer \<noteq> fitness_text @ disclaimer"
    using replies_distinct by simp
  with ex have ne: "generate_reply (ascii ''tongue workout'') \<noteq> fitness_text @ disclaimer"
    by simp
  from scan idx order dist m0 m1 ex ne show ?thesis by blast
qed

text \<open>
  A run of C1 at the second category: "Keto or GYM?" has no oral keyword, has the
  fitness keyword "gym" and the nutrition keyword "keto", and gets the fitness
  reply.
\<close>

theorem generate_reply_first_match_witness:
  "1 < length categories \<and> matches (categories ! 1) (normalized (ascii ''Keto or GYM?'')) \<and>
   \<not> matches (categories ! 0) (normalized (ascii ''Keto or GYM?'')) \<and>
   matches (categories ! 2) (normalized (ascii ''Keto or GYM?'')) \<and>
   generate_reply (ascii ''Keto or GYM?'') = snd (categories ! 1) \<and>
   snd (categories ! 1) = fitness_text @ disclaimer"
proof -
  have 1: "1 < length categories" by (simp add: categories_def)
  have 2: "matches (categories ! 1) (normalized (ascii ''Keto or GYM?''))"
    by (simp add: categories_def matches_def run_defs)
  have 0: "\<not> matches (categories ! 0) (normalized (ascii ''Keto or GYM?''))"
    by (simp add: categories_def matches_def run_defs)
  then have 3: "\<forall>j<1. \<not> matches (categories ! j) (normalized (ascii ''Keto or GYM?''))"
    by simp
  have 4: "matches (categories ! 2) (normalized (ascii ''Keto or GYM?''))"
    by (simp add: categories_def matches_def run_defs)
  have 5: "snd (categories ! 1) = fitness_text @ disclaimer"
    by (simp add: categories_def)
  from generate_reply_first_match[of "ascii ''Keto or GYM?''" 1] 1 2 3
  have "generate_reply (ascii ''Keto or GYM?'') = snd (categories ! 1)" by blast
  with 0 1 2 4 5 show ?thesis by blast
qed

subsection \<open>C2: wellness is tried before the urgent-safety fallback\<close>

text \<open>
  Claim C2, amended. The message "severe stress" gets the wellness reply and not
  the urgent-safety reply. In general, a message whose normalised form has a
  wellness keyword and an urgent-safety keyword never gets the urgent-safety reply,
  and it gets the wellness reply when no keyword of the four categories before
  wellness (oral, fitness, nutrition, records) occurs in it.
\<close>

theorem wellness_before_urgent:
  "(any_in wellness_keywords (normalized text) \<and> any_in urgent_keywords (normalized text) \<and>
      \<not> any_in (oral_keywords @ fitness_keywords @ nutrition_keywords @ records_keywords)
          (normalized text) \<longrightarrow>
      generate_reply text = wellness_text @ disclaimer) \<and>
   (any_in wellness_keywords (normalized text) \<and> any_in urgent_keywords (normalized text) \<longrightarrow>
      generate_reply text \<noteq> urgent_text @ disclaimer) \<and>
   generate_reply (ascii ''severe stress'') = wellness_text @ disclaimer \<and>
   generate_reply (ascii ''severe stress'') \<noteq> urgent_text @ disclaimer"
proof -
  have a: "generate_reply text = wellness_text @ disclaimer"
    if "any_in wellness_keywords (normalized text)"
      "\<not> any_in (oral_keywords @ fitness_keywords @ nutrition_keywords @ records_keywords)
          (normalized text)"
    using that by (auto simp: generate_reply_unfold any_in_iff)
  have b: "generate_reply text \<noteq> urgent_text @ disclaimer"
    if "any_in wellness_keywords (normalized text)"
    using that replies_distinct by (auto simp: generate_reply_unfold)
  have c: "generate_reply (ascii ''severe stress'') = wellness_text @ disclaimer"
    by (simp add: generate_reply_unfold run_defs)
  have "wellness_text @ disclaimer \<noteq> urgent_text @ disclaimer"
    using replies_distinct by simp
  with a b c show ?thesis by simp
qed

text \<open>
  A run of C2: "Severe STRESS at night" has "stress" and "severe" once lower-cased,
  and no keyword of the first four categories.
\<close>

theorem wellness_before_urgent_witness:
  "any_in wellness_keywords (normalized (ascii ''Severe STRESS at night'')) \<and>
   any_in urgent_keywords (normalized (ascii ''Severe STRESS at night'')) \<and>
   \<not> any_in (oral_keywords @ fitness_keywords @ nutrition_keywords @ records_keywords)
       (normalized (ascii ''Severe STRESS at night'')) \<and>
   generate_reply (ascii ''Severe STRESS at night'') = wellness_text @ disclaimer \<and>
   generate_reply (ascii ''Severe STRESS at night'') \<noteq> urgent_text @ disclaimer"
proof -
  have 1: "any_in wellness_keywords (normalized (ascii ''Severe STRESS at night''))"
    by (simp add: run_defs)
  have 2: "any_in urgent_keywords (normalized (ascii ''Severe STRESS at night''))"
    by (simp add: run_defs)
  have 3: "\<not> any_in (oral_keywords @ fitness_keywords @ nutrition_keywords @ records_keywords)
       (normalized (ascii ''Severe STRESS at night''))"
    by (simp add: run_defs)
  from 1 2 3 wellness_before_urgent[of "ascii ''Severe STRESS at night''"]
  show ?thesis by blast
qed

text \<open>
  The claim as worded promises the wellness reply to every message with a wellness
  and an urgent-safety keyword. The message "severe stress after a workout" has
  both, and also the fitness keyword "workout": the second category is tried before
  the fifth, and the reply is the fitness one.
\<close>

theorem wellness_keyword_counterexample:
  "str_in (ascii ''stress'') (ascii ''severe stress after a workout'') \<and>
   str_in (ascii ''severe'') (ascii ''severe stress after a workout'') \<and>
   any_in wellness_keywords (normalized (ascii ''severe stress after a workout'')) \<and>
   any_in urgent_keywords (normalized (ascii ''severe stress after a workout'')) \<and>
   generate_reply (ascii ''severe stress after a workout'') = fitness_text @ disclaimer \<and>
   generate_reply (ascii ''severe stress after a workout'') \<noteq> wellness_text @ disclaimer"
proof -
  have 1: "str_in (ascii ''stress'') (ascii ''severe stress after a workout'')"
    by (simp add: ascii_def)
  have 2: "str_in (ascii ''severe'') (ascii ''severe stress after a workout'')"
    by (simp add: ascii_def)
  have 3: "any_in wellness_keywords (normalized (ascii ''severe stress after a workout''))"
    by (simp add: run_defs)
  have 4: "any_in urgent_keywords (normalized (ascii ''severe stress after a workout''))"
    by (simp add: run_defs)
  have 5: "generate_reply (ascii ''severe stress after a workout'') = fitness_text @ disclaimer"
    by (simp add: generate_reply_unfold run_defs)
  have "fitness_text @ disclaimer \<noteq> wellness_text @ disclaimer"
    using replies_distinct by simp
  with 1 2 3 4 5 show ?thesis by simp
qed

subsection \<open>C3: every reply ends with the disclaimer\<close>

text \<open>
  Claim C3. For every message the reply ends with two newlines followed by the
  disclaimer, and the disclaimer is exactly the sentence pair quoted in the
  statement. When the urgent-safety branch answers (an urgent keyword matches and
  no keyword of the five categories before it), the reply is the safety warning,
  two newlines, the disclaimer.
\<close>

theorem generate_reply_disclaimer:
  "(\<exists>body. generate_reply text = body @ nl @ nl @ disclaimer) \<and>
   disclaimer = ascii ''Note: This is general wellness information and not a medical diagnosis. Consult a qualified clinician for personalized care or urgent concerns.'' \<and>
   (any_in urgent_keywords (normalized text) \<and>
      \<not> any_in (oral_keywords @ fitness_keywords @ nutrition_keywords @ records_keywords @
            wellness_keywords) (normalized text) \<longrightarrow>
      generate_reply text =
        ascii ''Your symptoms could be urgent. Please seek immediate in-person medical care or call local emergency services.'' @
        nl @ nl @ disclaimer)"
proof -
  have 1: "\<exists>body. generate_reply text = body @ nl @ nl @ disclaimer"
    using generate_reply_cases by (rule replies_end)
  have 2: "disclaimer = ascii ''Note: This is general wellness information and not a medical diagnosis. Consult a qualified clinician for personalized care or urgent concerns.''"
    by (simp add: disclaimer_def ascii_def)
  have 3: "generate_reply text =
        ascii ''Your symptoms could be urgent. Please seek immediate in-person medical care or call local emergency services.'' @
        nl @ nl @ disclaimer"
    if "any_in urgent_keywords (normalized text)"
      "\<not> any_in (oral_keywords @ fitness_keywords @ nutrition_keywords @ records_keywords @
            wellness_keywords) (normalized text)"
    using that by (auto simp: generate_reply_unfold any_in_iff urgent_text_def)
  from 1 2 3 show ?thesis by blast
qed

text \<open>
  A run of C3 in the urgent-safety branch: "I have chest pain".
\<close>

theorem generate_reply_disclaimer_witness:
  "any_in urgent_keywords (normalized (ascii ''I have chest pain'')) \<and>
   \<not> any_in (oral_keywords @ fitness_keywords @ nutrition_keywords @ records_keywords @
         wellness_keywords) (normalized (ascii ''I have chest pain'')) \<and>
   generate_reply (ascii ''I have chest pain'') =
     ascii ''Your symptoms could be urgent. Please seek immediate in-person medical care or call local emergency services.'' @
     nl @ nl @ disclaimer"
proof -
  have 1: "any_in urgent_keywords (normalized (ascii ''I have chest pain''))"
    by (simp add: run_defs)
  have 2: "\<not> any_in (oral_keywords @ fitness_keywords @ nutrition_keywords @ records_keywords @
         wellness_keywords) (normalized (ascii ''I have chest pain''))"
    by (simp add: run_defs)
  from 1 2 generate_reply_disclaimer[of "ascii ''I have chest pain''"] show ?thesis by blast
qed

subsection \<open>C4: no keyword, default reply\<close>

text \<open>
  Claim C4. When the normalised message contains none of the keywords of the six
  categories, the reply is the default helper message followed by two newlines and
  the disclaimer; so it is for the empty message. \<open>generate_reply\<close> is a total
  function into strings: lower-casing, stripping, the substring test and
  concatenation cannot raise on a string, and the model has no error value.
\<close>

theorem generate_reply_default:
  "(\<not> any_in all_keywords (normalized text) \<longrightarrow> generate_reply text = default_text @ disclaimer) \<and>
   generate_reply [] = default_text @ disclaimer \<and>
   default_text =
     ascii ''I can help with training plans, macro-friendly meals, tongue health cues, organizing medical records, and daily wellness habits. Tell me more about your goal or question (e.g., '3-day full-body plan' or 'interpret white tongue coating').'' @
     nl @ nl"
proof -
  have 1: "generate_reply text = default_text @ disclaimer"
    if "\<not> any_in all_keywords (normalized text)"
    using that by (simp add: generate_reply_unfold any_in_all_keywords)
  have 2: "default_text =
     ascii ''I can help with training plans, macro-friendly meals, tongue health cues, organizing medical records, and daily wellness habits. Tell me more about your goal or question (e.g., '3-day full-body plan' or 'interpret white tongue coating').'' @
     nl @ nl"
    by (simp add: default_text_def ascii_def)
  from 1 2 generate_reply_Nil show ?thesis by blast
qed

text \<open>
  A run of C4: "Hello, who are you?" has no keyword.
\<close>

theorem generate_reply_default_witness:
  "\<not> any_in all_keywords (normalized (ascii ''Hello, who are you?'')) \<and>
   generate_reply (ascii ''Hello, who are you?'') = default_text @ disclaimer"
proof -
  have 1: "\<not> any_in all_keywords (normalized (ascii ''Hello, who are you?''))"
    by (simp add: run_defs)
  with generate_reply_default[of "ascii ''Hello, who are you?''"] show ?thesis by blast
qed

subsection \<open>C5: the case of ASCII letters does not matter\<close>

text \<open>
  Claim C5, amended. Two messages of the same length that differ, code point by
  code point, only in the case of an ASCII letter (a capital against its small
  letter), in the Kelvin sign U+212A against \<open>K\<close> or \<open>k\<close>, or in code points
  outside ASCII other than U+0130 and U+212A, get the same reply; "WORKOUT" and
  "workout" get the same reply.
\<close>

theorem generate_reply_folded_case:
  "(differs_only_in_folded_case s t \<longrightarrow> generate_reply s = generate_reply t) \<and>
   differs_only_in_folded_case (ascii ''WORKOUT'') (ascii ''workout'') \<and>
   generate_reply (ascii ''WORKOUT'') = generate_reply (ascii ''workout'')"
proof -
  have 1: "generate_reply s = generate_reply t" if "differs_only_in_folded_case s t"
  proof -
    from that have "list_all2 folded_alike s t" by (simp add: differs_only_in_folded_case_def)
    then have "any_in ks (lower s) = any_in ks (lower t)" if "list_all plain_keyword ks" for ks
      using that by (rule any_in_folded_alike)
    then show ?thesis by (simp add: generate_reply_lower keywords_plain)
  qed
  have 2: "differs_only_in_folded_case (ascii ''WORKOUT'') (ascii ''workout'')"
    by (simp add: differs_only_in_folded_case_def folded_alike_def ascii_case_pair_def ascii_def)
  have "generate_reply (ascii ''WORKOUT'') = fitness_text @ disclaimer"
    by (simp add: generate_reply_unfold run_defs)
  moreover have "generate_reply (ascii ''workout'') = fitness_text @ disclaimer"
    by (simp add: generate_reply_unfold run_defs)
  ultimately show ?thesis using 1 2 by simp
qed

text \<open>
  A run of C5: "KETO for Zo" followed by U+00C9 (capital E with acute), its first
  letter written as the Kelvin sign, against "keto FOR zo" followed by U+00E9
  (small e with acute).
\<close>

theorem generate_reply_folded_case_witness:
  "differs_only_in_folded_case ([0x212A] @ ascii ''ETO for Zo'' @ [0xC9])
     (ascii ''keto FOR zo'' @ [0xE9]) \<and>
   generate_reply ([0x212A] @ ascii ''ETO for Zo'' @ [0xC9]) =
     generate_reply (ascii ''keto FOR zo'' @ [0xE9]) \<and>
   generate_reply (ascii ''keto FOR zo'' @ [0xE9]) = nutrition_text @ disclaimer"
proof -
  have 1: "differs_only_in_folded_case ([0x212A] @ ascii ''ETO for Zo'' @ [0xC9])
     (ascii ''keto FOR zo'' @ [0xE9])"
    by (simp add: differs_only_in_folded_case_def folded_alike_def ascii_case_pair_def
        kelvin_pair_def beyond_table_def ascii_def)
  have 2: "generate_reply (ascii ''keto FOR zo'' @ [0xE9]) = nutrition_text @ disclaimer"
    by (simp add: generate_reply_unfold run_defs)
  from 1 2 generate_reply_folded_case[of "[0x212A] @ ascii ''ETO for Zo'' @ [0xC9]"
      "ascii ''keto FOR zo'' @ [0xE9]"]
  show ?thesis by blast
qed

text \<open>
  The claim as worded covers every pair of strings that differ only in letter case.
  "SLEEP" is the upper-case form of the string U+017F "leep" (long s), and "DIET"
  that of "d" U+0131 "et" (dotless i); lower-casing leaves the long s and the
  dotless i as they are, so neither string contains the keyword, and each gets the
  default reply where its upper-case form gets the wellness or the nutrition reply.
\<close>

theorem letter_case_counterexample:
  "upper ([0x17F] @ ascii ''leep'') = Some (ascii ''SLEEP'') \<and>
   generate_reply ([0x17F] @ ascii ''leep'') = default_text @ disclaimer \<and>
   generate_reply (ascii ''SLEEP'') = wellness_text @ disclaimer \<and>
   generate_reply ([0x17F] @ ascii ''leep'') \<noteq> generate_reply (ascii ''SLEEP'') \<and>
   upper (ascii ''d'' @ [0x131] @ ascii ''et'') = Some (ascii ''DIET'') \<and>
   generate_reply (ascii ''d'' @ [0x131] @ ascii ''et'') = default_text @ disclaimer \<and>
   generate_reply (ascii ''DIET'') = nutrition_text @ disclaimer \<and>
   generate_reply (ascii ''d'' @ [0x131] @ ascii ''et'') \<noteq> generate_reply (ascii ''DIET'')"
proof -
  have 1: "upper ([0x17F] @ ascii ''leep'') = Some (ascii ''SLEEP'')"
    by (simp add: upper_cp_def ascii_def)
  have 2: "generate_reply ([0x17F] @ ascii ''leep'') = default_text @ disclaimer"
    by (simp add: generate_reply_unfold run_defs)
  have 3: "generate_reply (ascii ''SLEEP'') = wellness_text @ disclaimer"
    by (simp add: generate_reply_unfold run_defs)
  have 4: "upper (ascii ''d'' @ [0x131] @ ascii ''et'') = Some (ascii ''DIET'')"
    by (simp add: upper_cp_def ascii_def)
  have 5: "generate_reply (ascii ''d'' @ [0x131] @ ascii ''et'') = default_text @ disclaimer"
    by (simp add: generate_reply_unfold run_defs)
  have 6: "generate_reply (ascii ''DIET'') = nutrition_text @ disclaimer"
    by (simp add: generate_reply_unfold run_defs)
  have 7: "default_text @ disclaimer \<noteq> wellness_text @ disclaimer"
    "default_text @ disclaimer \<noteq> nutrition_text @ disclaimer"
    using replies_distinct by auto
  from 1 2 3 4 5 6 7 show ?thesis by simp
qed

subsection \<open>C6: a message with "tongue" in any letter case\<close>

text \<open>
  Claim C6. When the message contains the word "tongue", each of its six letters
  in upper or lower case, the reply starts with "Tongue health quick read".
\<close>

theorem tongue_reply_prefix:
  "in_any_case w (ascii ''tongue'') \<Longrightarrow>
     starts_with (generate_reply (a @ w @ b)) (ascii ''Tongue health quick read'')"
proof -
  assume "in_any_case w (ascii ''tongue'')"
  then have "list_all2 (\<lambda>c x. c = x \<or> c + 0x20 = x) w (ascii ''tongue'')"
    by (simp add: in_any_case_def)
  moreover have "list_all (\<lambda>x. 0x61 \<le> x \<and> x \<le> (0x7A::nat)) (ascii ''tongue'')"
    by (simp add: ascii_def)
  ultimately have "lower w = ascii ''tongue''" by (rule lower_in_any_case)
  then have "lower (a @ w @ b) = lower a @ ascii ''tongue'' @ lower b"
    by (simp add: lower_append)
  then have "str_in (ascii ''tongue'') (lower (a @ w @ b))"
    by (auto simp: str_in_iff)
  then have "any_in oral_keywords (lower (a @ w @ b))"
    by (simp add: any_in_def oral_keywords_def)
  then have "generate_reply (a @ w @ b) = tongue_text @ disclaimer"
    by (simp add: generate_reply_lower)
  moreover have "starts_with (tongue_text @ disclaimer) (ascii ''Tongue health quick read'')"
    by (simp add: tongue_text_def ascii_def)
  ultimately show ?thesis by simp
qed

text \<open>
  A run of C6: "My TonGUE is sore".
\<close>

theorem tongue_reply_prefix_witness:
  "in_any_case (ascii ''TonGUE'') (ascii ''tongue'') \<and>
   starts_with (generate_reply (ascii ''My '' @ ascii ''TonGUE'' @ ascii '' is sore''))
     (ascii ''Tongue health quick read'')"
proof -
  have 1: "in_any_case (ascii ''TonGUE'') (ascii ''tongue'')"
    by (simp add: in_any_case_def ascii_def)
  from tongue_reply_prefix[OF 1, of "ascii ''My ''" "ascii '' is sore''"] 1
  show ?thesis by simp
qed

subsection \<open>C7: only leading and trailing white space is stripped\<close>

text \<open>
  Claim C7. \<open>strip\<close> removes a run of white space at each end and nothing else:
  the message is white space, then the stripped message, then white space, and the
  stripped message is empty or has no white space at either end. Adding white space
  to the ends of a message or removing it does not change the reply, and the reply
  to a message is the reply to its normalised form. White space inside the message
  is kept: "fat loss" is a fitness keyword, "fat  loss" with two spaces is not.
\<close>

theorem normalization_strips_ends:
  "(\<exists>a b. s = a @ strip s @ b \<and> list_all isspace a \<and> list_all isspace b) \<and>
   (strip s = [] \<or> (\<not> isspace (hd (strip s)) \<and> \<not> isspace (last (strip s)))) \<and>
   (list_all isspace u \<and> list_all isspace v \<and> list_all isspace u' \<and> list_all isspace v' \<longrightarrow>
      generate_reply (u @ s @ v) = generate_reply (u' @ s @ v')) \<and>
   generate_reply s = generate_reply (lower (strip s)) \<and>
   generate_reply (ascii ''fat loss'') = fitness_text @ disclaimer \<and>
   generate_reply (ascii ''fat  loss'') = default_text @ disclaimer"
proof -
  have 1: "\<exists>a b. s = a @ strip s @ b \<and> list_all isspace a \<and> list_all isspace b"
    by (rule strip_decomp)
  have 2: "strip s = [] \<or> (\<not> isspace (hd (strip s)) \<and> \<not> isspace (last (strip s)))"
    using strip_ends[of s] by blast
  have 3: "generate_reply (u @ s @ v) = generate_reply (u' @ s @ v')"
    if "list_all isspace u" "list_all isspace v" "list_all isspace u'" "list_all isspace v'"
  proof (rule generate_reply_cong)
    show "normalized (u @ s @ v) = normalized (u' @ s @ v')"
      using that by (simp only: normalized_pad)
  qed
  have 4: "generate_reply s = generate_reply (lower (strip s))"
    by (rule generate_reply_cong) (simp only: normalized_lower_strip)
  have 5: "generate_reply (ascii ''fat loss'') = fitness_text @ disclaimer"
    by (simp add: generate_reply_unfold run_defs)
  have 6: "generate_reply (ascii ''fat  loss'') = default_text @ disclaimer"
    by (simp add: generate_reply_unfold run_defs)
  from 1 2 3 4 5 6 show ?thesis by blast
qed

text \<open>
  A run of C7: "Any KETO meal ideas?" between a space and a tab in front and a
  newline, a no-break space and an ideographic space behind, against the same
  message with one trailing space.
\<close>

theorem normalization_strips_ends_witness:
  "list_all isspace [0x20, 0x09] \<and> list_all isspace [0x0A, 0xA0, 0x3000] \<and>
   list_all isspace [] \<and> list_all isspace [0x20] \<and>
   generate_reply ([0x20, 0x09] @ ascii ''Any KETO meal ideas?'' @ [0x0A, 0xA0, 0x3000]) =
     generate_reply ([] @ ascii ''Any KETO meal ideas?'' @ [0x20]) \<and>
   generate_reply ([] @ ascii ''Any KETO meal ideas?'' @ [0x20]) = nutrition_text @ disclaimer"
proof -
  have 1: "list_all isspace [0x20, 0x09]" "list_all isspace [0x0A, 0xA0, 0x3000]"
    "list_all isspace []" "list_all isspace [0x20]"
    by (simp_all add: isspace_def)
  have 2: "generate_reply ([] @ ascii ''Any KETO meal ideas?'' @ [0x20]) = nutrition_text @ disclaimer"
    by (simp add: generate_reply_unfold run_defs)
  from normalization_strips_ends[of "ascii ''Any KETO meal ideas?''" "[0x20, 0x09]"
      "[0x0A, 0xA0, 0x3000]" "[]" "[0x20]"] 1
  have "generate_reply ([0x20, 0x09] @ ascii ''Any KETO meal ideas?'' @ [0x0A, 0xA0, 0x3000]) =
     generate_reply ([] @ ascii ''Any KETO meal ideas?'' @ [0x20])"
    by blast
  with 1 2 show ?thesis by blast
qed

subsection \<open>C8: the reply depends on the message only\<close>

text \<open>
  Claim C8. The handler of \<^verbatim>\<open>POST /api/chat\<close> answers with
  \<open>generate_reply\<close> of the message; replacing the history of a request does not
  change the response, and two requests with the same message get the same
  response. \<open>generate_reply\<close> is a function of the message and of nothing else,
  so the same message always has the same reply.
\<close>

theorem chat_ignores_history:
  "reply (chat req) = generate_reply (message req) \<and>
   chat (req\<lparr>history := h\<rparr>) = chat req \<and>
   (message req = message req' \<longrightarrow> chat req = chat req')"
  by (simp add: chat_def)

text \<open>
  A run of C8: the message "gym" without history and with a history of two turns.
\<close>

theorem chat_ignores_history_witness:
  "message \<lparr>message = ascii ''gym'', history = None\<rparr> =
     message \<lparr>message = ascii ''gym'',
       history = Some [\<lparr>role = User, content = ascii ''I feel severe chest pain''\<rparr>,
                       \<lparr>role = Assistant, content = ascii ''Call emergency services''\<rparr>]\<rparr> \<and>
   chat \<lparr>message = ascii ''gym'', history = None\<rparr> =
     chat \<lparr>message = ascii ''gym'',
       history = Some [\<lparr>role = User, content = ascii ''I feel severe chest pain''\<rparr>,
                       \<lparr>role = Assistant, content = ascii ''Call emergency services''\<rparr>]\<rparr>"
  using chat_ignores_history[of "\<lparr>message = ascii ''gym'', history = None\<rparr>" h
      "\<lparr>message = ascii ''gym'',
       history = Some [\<lparr>role = User, content = ascii ''I feel severe chest pain''\<rparr>,
                       \<lparr>role = Assistant, content = ascii ''Call emergency services''\<rparr>]\<rparr>"]
  by simp

subsection \<open>C9: a message of white space only\<close>

text \<open>
  Claim C9. A message that consists of white space only gets the reply of the
  empty message, which is the default helper message with the disclaimer.
\<close>

theorem whitespace_only_default:
  "list_all isspace s \<Longrightarrow>
     generate_reply s = generate_reply [] \<and> generate_reply s = default_text @ disclaimer"
proof -
  assume "list_all isspace s"
  then have "normalized s = normalized []" by (simp add: normalized_space normalized_Nil)
  then have "generate_reply s = generate_reply []" by (rule generate_reply_cong)
  then show ?thesis by (simp add: generate_reply_Nil)
qed

text \<open>
  A run of C9: space, tab, newline, carriage return, no-break space, em space.
\<close>

theorem whitespace_only_default_witness:
  "list_all isspace [0x20, 0x09, 0x0A, 0x0D, 0xA0, 0x2003] \<and>
   generate_reply [0x20, 0x09, 0x0A, 0x0D, 0xA0, 0x2003] = generate_reply [] \<and>
   generate_reply [0x20, 0x09, 0x0A, 0x0D, 0xA0, 0x2003] = default_text @ disclaimer"
proof -
  have 1: "list_all isspace [0x20, 0x09, 0x0A, 0x0D, 0xA0, 0x2003]"
    by (simp add: isspace_def)
  from whitespace_only_default[OF 1] 1 show ?thesis by blast
qed

subsection \<open>C10: seven replies\<close>

text \<open>
  Claim C10. The replies of \<open>generate_reply\<close> are exactly the seven fixed
  texts, every one of them is the reply to some message, and the seven are pairwise
  different.
\<close>

theorem generate_reply_range:
  "range generate_reply =
     {tongue_text @ disclaimer, fitness_text @ disclaimer, nutrition_text @ disclaimer,
      records_text @ disclaimer, wellness_text @ disclaimer, urgent_text @ disclaimer,
      default_text @ disclaimer} \<and>
   distinct
     [tongue_text @ disclaimer, fitness_text @ disclaimer, nutrition_text @ disclaimer,
      records_text @ disclaimer, wellness_text @ disclaimer, urgent_text @ disclaimer,
      default_text @ disclaimer]"
proof -
  have sub: "generate_reply m \<in>
     {tongue_text @ disclaimer, fitness_text @ disclaimer, nutrition_text @ disclaimer,
      records_text @ disclaimer, wellness_text @ disclaimer, urgent_text @ disclaimer,
      default_text @ disclaimer}" for m
    using generate_reply_cases[of m] by simp
  have 1: "generate_reply (ascii ''mouth'') = tongue_text @ disclaimer"
    by (simp add: generate_reply_unfold run_defs)
  have 2: "generate_reply (ascii ''gym'') = fitness_text @ disclaimer"
    by (simp add: generate_reply_unfold run_defs)
  have 3: "generate_reply (ascii ''diet'') = nutrition_text @ disclaimer"
    by (simp add: generate_reply_unfold run_defs)
  have 4: "generate_reply (ascii ''labs'') = records_text @ disclaimer"
    by (simp add: generate_reply_unfold run_defs)
  have 5: "generate_reply (ascii ''sleep'') = wellness_text @ disclaimer"
    by (simp add: generate_reply_unfold run_defs)
  have 6: "generate_reply (ascii ''stroke'') = urgent_text @ disclaimer"
    by (simp add: generate_reply_unfold run_defs)
  have 7: "generate_reply [] = default_text @ disclaimer"
    by (rule generate_reply_Nil)
  have sup: "r \<in> range generate_reply"
    if "r \<in> {tongue_text @ disclaimer, fitness_text @ disclaimer, nutrition_text @ disclaimer,
      records_text @ disclaimer, wellness_text @ disclaimer, urgent_text @ disclaimer,
      default_text @ disclaimer}" for r
  proof -
    from that consider "r = generate_reply (ascii ''mouth'')" | "r = generate_reply (ascii ''gym'')"
      | "r = generate_reply (ascii ''diet'')" | "r = generate_reply (ascii ''labs'')"
      | "r = generate_reply (ascii ''sleep'')" | "r = generate_reply (ascii ''stroke'')"
      | "r = generate_reply []"
      unfolding 1 2 3 4 5 6 7 by blast
    then show ?thesis by cases (simp_all only: rangeI)
  qed
  have "range generate_reply =
     {tongue_text @ disclaimer, fitness_text @ disclaimer, nutrition_text @ disclaimer,
      records_text @ disclaimer, wellness_text @ disclaimer, urgent_text @ disclaimer,
      default_text @ disclaimer}"
  proof (intro equalityI subsetI)
    fix r assume "r \<in> range generate_reply"
    then obtain m where "r = generate_reply m" by blast
    with sub[of m] show "r \<in>
     {tongue_text @ disclaimer, fitness_text @ disclaimer, nutrition_text @ disclaimer,
      records_text @ disclaimer, wellness_text @ disclaimer, urgent_text @ disclaimer,
      default_text @ disclaimer}" by simp
  next
    fix r assume "r \<in>
     {tongue_text @ disclaimer, fitness_text @ disclaimer, nutrition_text @ disclaimer,
      records_text @ disclaimer, wellness_text @ disclaimer, urgent_text @ disclaimer,
      default_text @ disclaimer}"
    then show "r \<in> range generate_reply" by (rule sup)
  qed
  with replies_distinct show ?thesis by blast
qed

end
